theory Spec2Isabelle
  imports Complex_Main
begin

section \<open>Shipped coefficient headers\<close>

text \<open>
  The two generated headers \<^verbatim>\<open>src/filterdata.h\<close> and
  \<^verbatim>\<open>src/iir_filter_coeffs.h\<close> define the same macro and array names
  (\<^verbatim>\<open>IIR_NUM_SECTIONS\<close>, \<^verbatim>\<open>IIR_STATE_SIZE\<close>,
  \<^verbatim>\<open>iirCoeffs_DF2T\<close>); the constants below carry the file name as a prefix.
  The \<^verbatim>\<open>float32_t\<close> initialisers are read as the exact decimal values of
  their literals; rounding to single precision is not modelled.
\<close>

definition filterdata_IIR_NUM_SECTIONS :: nat where
  "filterdata_IIR_NUM_SECTIONS = 2"

definition filterdata_IIR_STATE_SIZE :: nat where
  "filterdata_IIR_STATE_SIZE = 4"

definition filterdata_iirCoeffs_DF2T :: "real list" where
  "filterdata_iirCoeffs_DF2T =
    [ 0.0000000585,
      0.0000001169,
      0.0000000585,
      -1.9426382780,
      0.9435972571,
      1.0000000000,
      2.0000000000,
      1.0000000000,
      -1.9752696753,
      0.9762448072 ]"

definition iir_filter_coeffs_IIR_NUM_SECTIONS :: nat where
  "iir_filter_coeffs_IIR_NUM_SECTIONS = 2"

definition iir_filter_coeffs_IIR_STATE_SIZE :: nat where
  "iir_filter_coeffs_IIR_STATE_SIZE = 4"

definition iir_filter_coeffs_iirCoeffs_DF2T :: "real list" where
  "iir_filter_coeffs_iirCoeffs_DF2T =
    [ 0.0048243431,
      0.0096486863,
      0.0048243431,
      -1.0485996008,
      0.2961403430,
      1.0000000000,
      2.0000000000,
      1.0000000000,
      -1.3209134340,
      0.6327387691 ]"

text \<open>
  The declared size of each array, \<^verbatim>\<open>[IIR_NUM_SECTIONS * 5]\<close>.
\<close>

definition filterdata_iirCoeffs_DF2T_size :: nat where
  "filterdata_iirCoeffs_DF2T_size = filterdata_IIR_NUM_SECTIONS * 5"

definition iir_filter_coeffs_iirCoeffs_DF2T_size :: nat where
  "iir_filter_coeffs_iirCoeffs_DF2T_size = iir_filter_coeffs_IIR_NUM_SECTIONS * 5"

text \<open>
  The two cascades as the specification lists them (section 8, impulse response
  determinism), kept apart from the arrays of the headers so that the two can be compared.
\<close>

definition spec_cascade_first :: "real list" where
  "spec_cascade_first =
    [0.0000000585, 0.0000001169, 0.0000000585, -1.9426382780, 0.9435972571,
     1, 2, 1, -1.9752696753, 0.9762448072]"

definition spec_cascade_second :: "real list" where
  "spec_cascade_second =
    [0.0048243431, 0.0096486863, 0.0048243431, -1.0485996008, 0.2961403430,
     1, 2, 1, -1.3209134340, 0.6327387691]"

section \<open>Data model of the coefficient table contract\<close>

record Section =
  b0 :: real
  b1 :: real
  b2 :: real
  a1 :: real
  a2 :: real

record FilterCascade =
  numSections :: nat
  sections :: "Section list"

datatype error = MalformedLayout | UnstableSection nat | UninitializedState

text \<open>
  Modelled from the spec: the stability invariant of a section (section 3). No function
  of the headers checks it; the headers only carry the numbers.
\<close>

definition stability_invariant :: "Section \<Rightarrow> bool" where
  "stability_invariant s = (\<bar>a2 s\<bar> < 1 \<and> \<bar>a1 s\<bar> < 1 + a2 s)"

text \<open>
  Modelled from the spec: the extraction step of \<open>decode\<close> (section 4.1), which reads
  \<open>flatValues[5i .. 5i+4]\<close> as \<open>(b0, b1, b2, a1, a2)\<close>. The decoder is absent from the
  sources.
\<close>

definition section_at :: "real list \<Rightarrow> nat \<Rightarrow> Section" where
  "section_at flatValues i =
    \<lparr> b0 = flatValues ! (5 * i),
      b1 = flatValues ! (5 * i + 1),
      b2 = flatValues ! (5 * i + 2),
      a1 = flatValues ! (5 * i + 3),
      a2 = flatValues ! (5 * i + 4) \<rparr>"

text \<open>
  Modelled from the spec: the per-section loop of \<open>decode\<close> over the indices
  \<open>[0, numSections)\<close>; the first section that violates the stability invariant ends
  the loop with \<open>UnstableSection\<close> of its index.
\<close>

fun decode_sections :: "real list \<Rightarrow> nat list \<Rightarrow> error + Section list" where
  "decode_sections flatValues [] = Inr []"
| "decode_sections flatValues (i # rest) =
    (let s = section_at flatValues i in
     if \<not> stability_invariant s then Inl (UnstableSection i)
     else (case decode_sections flatValues rest of
             Inl e \<Rightarrow> Inl e
           | Inr ss \<Rightarrow> Inr (s # ss)))"

text \<open>
  Modelled from the spec: \<open>decode(flatValues, numSections)\<close> of section 4.1, absent from
  the sources. The length constraint is checked first, and nothing is read from
  \<open>flatValues\<close> when it fails.
\<close>

definition decode :: "real list \<Rightarrow> nat \<Rightarrow> error + FilterCascade" where
  "decode flatValues n =
    (if length flatValues \<noteq> n * 5 then Inl MalformedLayout
     else (case decode_sections flatValues [0..<n] of
             Inl e \<Rightarrow> Inl e
           | Inr ss \<Rightarrow> Inr \<lparr> numSections = n, sections = ss \<rparr>))"

text \<open>
  Modelled from the spec: the inverse of the layout, writing a cascade as the flat
  sequence of section 3 (\<open>SerializedLayout\<close>).
\<close>

definition flatten :: "FilterCascade \<Rightarrow> real list" where
  "flatten c = concat (map (\<lambda>s. [b0 s, b1 s, b2 s, a1 s, a2 s]) (sections c))"

section \<open>Cascade processor\<close>

text \<open>
  Modelled from the spec: the update of one section in \<open>process\<close> (section 4.2). The
  headers only name the library routine \<^verbatim>\<open>arm_biquad_cascade_df2t_float32\<close> in
  commented-out call sites; its body is not part of the sources. The pair carries the
  running sample \<open>x\<close> and the state buffer, which the routine mutates in place. The
  arithmetic is over the reals (the coefficients are real-valued in section 3); rounding
  is not modelled.
\<close>

definition df2t_section :: "FilterCascade \<Rightarrow> nat \<Rightarrow> real \<times> real list \<Rightarrow> real \<times> real list" where
  "df2t_section c i = (\<lambda>(x, state).
     let s = sections c ! i;
         y = b0 s * x + state ! (2 * i);
         state1 = state[2 * i := b1 s * x - a1 s * y + state ! (2 * i + 1)];
         state2 = state1[2 * i + 1 := b2 s * x - a2 s * y]
     in (y, state2))"

text \<open>
  Modelled from the spec: one input sample run through the sections
  \<open>0 .. numSections - 1\<close> in order; the first component of the result is the output
  sample.
\<close>

definition process_sample :: "FilterCascade \<Rightarrow> real list \<Rightarrow> real \<Rightarrow> real \<times> real list" where
  "process_sample c state x = fold (df2t_section c) [0..<numSections c] (x, state)"

text \<open>
  Modelled from the spec: the loop of \<open>process\<close> over the samples of a block, returning
  the output block and the state buffer as the block leaves it.
\<close>

fun process_block :: "FilterCascade \<Rightarrow> real list \<Rightarrow> real list \<Rightarrow> real list \<times> real list" where
  "process_block c state [] = ([], state)"
| "process_block c state (x # xs) =
    (let (y, state1) = process_sample c state x;
         (ys, state2) = process_block c state1 xs
     in (y # ys, state2))"

text \<open>
  Modelled from the spec: \<open>process(cascade, state, input)\<close> of section 4.2, which fails
  with \<open>UninitializedState\<close> before any sample is processed when the state buffer has
  the wrong length.
\<close>

definition process :: "FilterCascade \<Rightarrow> real list \<Rightarrow> real list \<Rightarrow> error + (real list \<times> real list)" where
  "process c state input =
    (if length state \<noteq> numSections c * 2 then Inl UninitializedState
     else Inr (process_block c state input))"

text \<open>
  Modelled from the spec: a cascade that satisfies the invariants of section 3, as
  \<open>decode\<close> returns it.
\<close>

definition valid_cascade :: "FilterCascade \<Rightarrow> bool" where
  "valid_cascade c =
    (1 \<le> numSections c \<and> length (sections c) = numSections c \<and> list_all stability_invariant (sections c))"

section \<open>Code-generation template\<close>

text \<open>
  \<^verbatim>\<open>src/templates/cmsis_header_template.h\<close> is a text with placeholders. The
  context gives a value to each placeholder that occurs outside comments; the rendered
  header is kept as the values of the macros and of the array the template defines.
\<close>

record template_context =
  num_sections :: nat
  state_size :: nat
  form_type :: string
  data_type :: string
  sample_rate :: string
  filter_type :: string
  band_type :: string
  filter_order :: string
  cutoff_freq :: string
  coeffs_per_section :: nat
  coefficients_array :: "real list"

record header =
  IIR_FILTER_SECTIONS :: nat
  IIR_FILTER_STATE_SIZE :: nat
  IIR_FILTER_FORMAT :: string
  IIR_FILTER_DATA_TYPE :: string
  IIR_FILTER_SAMPLE_RATE :: string
  IIR_FILTER_TYPE :: string
  IIR_FILTER_BAND_TYPE :: string
  IIR_FILTER_ORDER :: string
  IIR_FILTER_CUTOFF :: string
  iirCoeffs_size :: nat
  iirCoeffs :: "real list"

definition cmsis_header_template :: "template_context \<Rightarrow> header" where
  "cmsis_header_template ctx =
    \<lparr> IIR_FILTER_SECTIONS = num_sections ctx,
      IIR_FILTER_STATE_SIZE = state_size ctx,
      IIR_FILTER_FORMAT = form_type ctx,
      IIR_FILTER_DATA_TYPE = data_type ctx,
      IIR_FILTER_SAMPLE_RATE = sample_rate ctx,
      IIR_FILTER_TYPE = filter_type ctx,
      IIR_FILTER_BAND_TYPE = band_type ctx,
      IIR_FILTER_ORDER = filter_order ctx,
      IIR_FILTER_CUTOFF = cutoff_freq ctx,
      iirCoeffs_size = num_sections ctx * coeffs_per_section ctx,
      iirCoeffs = coefficients_array ctx \<rparr>"

section \<open>The shipped tables\<close>

lemma upt_0_2: "[0..<2] = [0, 1]"
  by (simp add: upt_conv_Cons numeral_2_eq_2)

lemma decode_filterdata:
  "decode filterdata_iirCoeffs_DF2T filterdata_IIR_NUM_SECTIONS =
     Inr \<lparr> numSections = 2,
           sections =
             [\<lparr> b0 = 0.0000000585, b1 = 0.0000001169, b2 = 0.0000000585,
                a1 = -1.9426382780, a2 = 0.9435972571 \<rparr>,
              \<lparr> b0 = 1, b1 = 2, b2 = 1, a1 = -1.9752696753, a2 = 0.9762448072 \<rparr>] \<rparr>"
  by (simp add: decode_def filterdata_iirCoeffs_DF2T_def filterdata_IIR_NUM_SECTIONS_def
      section_at_def stability_invariant_def upt_0_2)

lemma decode_iir_filter_coeffs:
  "decode iir_filter_coeffs_iirCoeffs_DF2T iir_filter_coeffs_IIR_NUM_SECTIONS =
     Inr \<lparr> numSections = 2,
           sections =
             [\<lparr> b0 = 0.0048243431, b1 = 0.0096486863, b2 = 0.0048243431,
                a1 = -1.0485996008, a2 = 0.2961403430 \<rparr>,
              \<lparr> b0 = 1, b1 = 2, b2 = 1, a1 = -1.3209134340, a2 = 0.6327387691 \<rparr>] \<rparr>"
  by (simp add: decode_def iir_filter_coeffs_iirCoeffs_DF2T_def
      iir_filter_coeffs_IIR_NUM_SECTIONS_def section_at_def stability_invariant_def upt_0_2)

text \<open>
  Claim C1. Every section of both shipped tables satisfies the stability invariant
  \<open>\<bar>a2\<bar> < 1\<close> and \<open>\<bar>a1\<bar> < 1 + a2\<close>, the groups of five values being read as
  \<open>(b0, b1, b2, a1, a2)\<close> and the literals taken as exact decimals; hence \<open>decode\<close> of
  either table with its declared section count returns no \<open>UnstableSection\<close> error.
\<close>

theorem shipped_tables_stable:
  "list_all stability_invariant
     (map (section_at filterdata_iirCoeffs_DF2T) [0..<filterdata_IIR_NUM_SECTIONS])
   \<and> list_all stability_invariant
     (map (section_at iir_filter_coeffs_iirCoeffs_DF2T) [0..<iir_filter_coeffs_IIR_NUM_SECTIONS])
   \<and> (\<forall>i. decode filterdata_iirCoeffs_DF2T filterdata_IIR_NUM_SECTIONS
            \<noteq> Inl (UnstableSection i))
   \<and> (\<forall>i. decode iir_filter_coeffs_iirCoeffs_DF2T iir_filter_coeffs_IIR_NUM_SECTIONS
            \<noteq> Inl (UnstableSection i))"
proof -
  have s1: "list_all stability_invariant
     (map (section_at filterdata_iirCoeffs_DF2T) [0..<filterdata_IIR_NUM_SECTIONS])"
    by (simp add: stability_invariant_def section_at_def filterdata_iirCoeffs_DF2T_def
        filterdata_IIR_NUM_SECTIONS_def upt_0_2)
  have s2: "list_all stability_invariant
     (map (section_at iir_filter_coeffs_iirCoeffs_DF2T) [0..<iir_filter_coeffs_IIR_NUM_SECTIONS])"
    by (simp add: stability_invariant_def section_at_def iir_filter_coeffs_iirCoeffs_DF2T_def
        iir_filter_coeffs_IIR_NUM_SECTIONS_def upt_0_2)
  have d1: "\<forall>i. decode filterdata_iirCoeffs_DF2T filterdata_IIR_NUM_SECTIONS
            \<noteq> Inl (UnstableSection i)"
    by (simp add: decode_filterdata)
  have d2: "\<forall>i. decode iir_filter_coeffs_iirCoeffs_DF2T iir_filter_coeffs_IIR_NUM_SECTIONS
            \<noteq> Inl (UnstableSection i)"
    by (simp add: decode_iir_filter_coeffs)
  from s1 s2 d1 d2 show ?thesis by blast
qed

text \<open>
  Claim C2. Each shipped table is a flat sequence of \<open>IIR_NUM_SECTIONS * 5\<close> values,
  five consecutive values per section in the order \<open>[b0, b1, b2, a1, a2]\<close> with
  section 0 first, and the two tables are, value for value, the two cascades the
  specification lists: the first in \<^verbatim>\<open>src/filterdata.h\<close>, the second in
  \<^verbatim>\<open>src/iir_filter_coeffs.h\<close>.
\<close>

theorem shipped_tables_layout:
  "length filterdata_iirCoeffs_DF2T = filterdata_IIR_NUM_SECTIONS * 5
   \<and> length iir_filter_coeffs_iirCoeffs_DF2T = iir_filter_coeffs_IIR_NUM_SECTIONS * 5
   \<and> filterdata_iirCoeffs_DF2T = spec_cascade_first
   \<and> iir_filter_coeffs_iirCoeffs_DF2T = spec_cascade_second
   \<and> map (section_at filterdata_iirCoeffs_DF2T) [0..<filterdata_IIR_NUM_SECTIONS] =
       [\<lparr> b0 = 0.0000000585, b1 = 0.0000001169, b2 = 0.0000000585,
          a1 = -1.9426382780, a2 = 0.9435972571 \<rparr>,
        \<lparr> b0 = 1, b1 = 2, b2 = 1, a1 = -1.9752696753, a2 = 0.9762448072 \<rparr>]
   \<and> map (section_at iir_filter_coeffs_iirCoeffs_DF2T)
         [0..<iir_filter_coeffs_IIR_NUM_SECTIONS] =
       [\<lparr> b0 = 0.0048243431, b1 = 0.0096486863, b2 = 0.0048243431,
          a1 = -1.0485996008, a2 = 0.2961403430 \<rparr>,
        \<lparr> b0 = 1, b1 = 2, b2 = 1, a1 = -1.3209134340, a2 = 0.6327387691 \<rparr>]"
  by (simp add: filterdata_iirCoeffs_DF2T_def iir_filter_coeffs_iirCoeffs_DF2T_def
      filterdata_IIR_NUM_SECTIONS_def iir_filter_coeffs_IIR_NUM_SECTIONS_def
      spec_cascade_first_def spec_cascade_second_def section_at_def upt_0_2)

text \<open>
  Claim C9. In every section of both shipped tables the first and the third
  feed-forward coefficient are the same literal: the value at offset 0 of each group of
  five (\<open>b0\<close>) equals the value at offset 2 (\<open>b2\<close>).
\<close>

theorem shipped_tables_symmetric_numerator:
  "list_all (\<lambda>i. filterdata_iirCoeffs_DF2T ! (5 * i) = filterdata_iirCoeffs_DF2T ! (5 * i + 2))
     [0..<filterdata_IIR_NUM_SECTIONS]
   \<and> list_all (\<lambda>i. iir_filter_coeffs_iirCoeffs_DF2T ! (5 * i) =
                    iir_filter_coeffs_iirCoeffs_DF2T ! (5 * i + 2))
     [0..<iir_filter_coeffs_IIR_NUM_SECTIONS]"
  by (simp add: filterdata_iirCoeffs_DF2T_def iir_filter_coeffs_iirCoeffs_DF2T_def
      filterdata_IIR_NUM_SECTIONS_def iir_filter_coeffs_IIR_NUM_SECTIONS_def upt_0_2)

text \<open>
  Claim C10. Both shipped arrays hold exactly 10 initialiser values, which is their
  declared size \<open>IIR_NUM_SECTIONS * 5\<close> with \<open>IIR_NUM_SECTIONS = 2\<close>; so \<open>decode\<close> of
  either table with its declared section count does not take the \<open>MalformedLayout\<close>
  branch.
\<close>

theorem shipped_tables_length:
  "length filterdata_iirCoeffs_DF2T = 10
   \<and> filterdata_IIR_NUM_SECTIONS = 2
   \<and> filterdata_iirCoeffs_DF2T_size = length filterdata_iirCoeffs_DF2T
   \<and> decode filterdata_iirCoeffs_DF2T filterdata_IIR_NUM_SECTIONS \<noteq> Inl MalformedLayout
   \<and> length iir_filter_coeffs_iirCoeffs_DF2T = 10
   \<and> iir_filter_coeffs_IIR_NUM_SECTIONS = 2
   \<and> iir_filter_coeffs_iirCoeffs_DF2T_size = length iir_filter_coeffs_iirCoeffs_DF2T
   \<and> decode iir_filter_coeffs_iirCoeffs_DF2T iir_filter_coeffs_IIR_NUM_SECTIONS
       \<noteq> Inl MalformedLayout"
  by (simp add: decode_filterdata decode_iir_filter_coeffs)
     (simp add: filterdata_iirCoeffs_DF2T_def iir_filter_coeffs_iirCoeffs_DF2T_def
      filterdata_IIR_NUM_SECTIONS_def iir_filter_coeffs_IIR_NUM_SECTIONS_def
      filterdata_iirCoeffs_DF2T_size_def iir_filter_coeffs_iirCoeffs_DF2T_size_def)

section \<open>The decoder\<close>

lemma decode_sections_Inr_iff:
  "decode_sections fv idxs = Inr ss \<longleftrightarrow>
     list_all (\<lambda>i. stability_invariant (section_at fv i)) idxs \<and> ss = map (section_at fv) idxs"
proof (induction idxs arbitrary: ss)
  case Nil
  then show ?case by auto
next
  case (Cons i rest)
  show ?case
  proof (cases "decode_sections fv rest")
    case (Inl e)
    with Cons.IH[of "map (section_at fv) rest"] show ?thesis by (auto simp: Let_def)
  next
    case (Inr ss')
    with Cons.IH[of ss'] show ?thesis by (auto simp: Let_def)
  qed
qed

lemma decode_sections_Inl:
  "decode_sections fv idxs = Inl e \<Longrightarrow>
     \<exists>pre j post. idxs = pre @ j # post \<and> e = UnstableSection j
        \<and> \<not> stability_invariant (section_at fv j) \<and> list_all (\<lambda>i. stability_invariant (section_at fv i)) pre"
proof (induction idxs)
  case Nil
  then show ?case by simp
next
  case (Cons i rest)
  show ?case
  proof (cases "stability_invariant (section_at fv i)")
    case False
    with Cons.prems have "e = UnstableSection i" by (simp add: Let_def)
    with False have "i # rest = [] @ i # rest \<and> e = UnstableSection i
        \<and> \<not> stability_invariant (section_at fv i) \<and> list_all (\<lambda>i. stability_invariant (section_at fv i)) []"
      by simp
    then show ?thesis by blast
  next
    case True
    with Cons.prems have "decode_sections fv rest = Inl e"
      by (simp add: Let_def split: sum.splits)
    from Cons.IH[OF this] obtain pre j post where
      h: "rest = pre @ j # post" "e = UnstableSection j" "\<not> stability_invariant (section_at fv j)"
         "list_all (\<lambda>i. stability_invariant (section_at fv i)) pre"
      by blast
    with True have "i # rest = (i # pre) @ j # post \<and> e = UnstableSection j
        \<and> \<not> stability_invariant (section_at fv j) \<and> list_all (\<lambda>i. stability_invariant (section_at fv i)) (i # pre)"
      by simp
    then show ?thesis by blast
  qed
qed

lemma upt_split_at:
  assumes "[0..<n] = pre @ j # post"
  shows "pre = [0..<j] \<and> j < n"
proof -
  have len: "length pre < n" using arg_cong[OF assms, of length] by simp
  have "j = [0..<n] ! length pre" using assms by simp
  with len have j: "j = length pre" by simp
  have "pre = take (length pre) [0..<n]" using assms by simp
  also have "\<dots> = [0..<length pre]" using len by (simp add: take_upt)
  finally show ?thesis using j len by simp
qed

lemma decode_not_stable:
  assumes len: "length fv = n * 5" and i: "i < n" and ns: "\<not> stability_invariant (section_at fv i)"
  shows "\<exists>j\<le>i. decode fv n = Inl (UnstableSection j) \<and> \<not> stability_invariant (section_at fv j)
           \<and> (\<forall>k<j. stability_invariant (section_at fv k))"
proof -
  from i ns have "\<not> list_all (\<lambda>i. stability_invariant (section_at fv i)) [0..<n]"
    by (auto simp: list_all_iff)
  then have "\<forall>ss. decode_sections fv [0..<n] \<noteq> Inr ss"
    by (simp add: decode_sections_Inr_iff)
  then obtain e where e: "decode_sections fv [0..<n] = Inl e"
    by (cases "decode_sections fv [0..<n]") auto
  from decode_sections_Inl[OF e] obtain pre j post where
    h: "[0..<n] = pre @ j # post" "e = UnstableSection j" "\<not> stability_invariant (section_at fv j)"
       "list_all (\<lambda>i. stability_invariant (section_at fv i)) pre"
    by blast
  from upt_split_at[OF h(1)] have pre: "pre = [0..<j]" and jn: "j < n" by simp_all
  from h(4) pre have before: "\<forall>k<j. stability_invariant (section_at fv k)" by (simp add: list_all_iff)
  with ns have "j \<le> i" by (meson not_le)
  moreover from len e h(2) have "decode fv n = Inl (UnstableSection j)"
    by (simp add: decode_def)
  ultimately show ?thesis using h(3) before by blast
qed

lemma decode_Inr:
  assumes "decode fv n = Inr c"
  shows "length fv = n * 5 \<and> numSections c = n \<and> sections c = map (section_at fv) [0..<n]
         \<and> list_all stability_invariant (sections c)"
proof -
  from assms have len: "length fv = n * 5" by (auto simp: decode_def split: if_splits)
  with assms obtain ss where ss: "decode_sections fv [0..<n] = Inr ss"
      and c: "c = \<lparr> numSections = n, sections = ss \<rparr>"
    by (auto simp: decode_def split: sum.splits)
  from ss have "list_all (\<lambda>i. stability_invariant (section_at fv i)) [0..<n]" "ss = map (section_at fv) [0..<n]"
    by (simp_all add: decode_sections_Inr_iff)
  with len c show ?thesis by (simp add: list_all_iff)
qed

lemma decode_valid_cascade:
  assumes "decode fv n = Inr c" and "1 \<le> n"
  shows "valid_cascade c"
proof -
  from decode_Inr[OF assms(1)] have n: "numSections c = n"
    and ss: "sections c = map (section_at fv) [0..<n]"
    and st: "list_all stability_invariant (sections c)"
    by blast+
  from ss have "length (sections c) = n" by simp
  with n st assms(2) show ?thesis unfolding valid_cascade_def by simp
qed

lemma take_5_drop:
  assumes "k + 5 \<le> length fv"
  shows "take 5 (drop k fv) = [fv ! k, fv ! (k + 1), fv ! (k + 2), fv ! (k + 3), fv ! (k + 4)]"
proof (rule nth_equalityI)
  show "length (take 5 (drop k fv)) =
        length [fv ! k, fv ! (k + 1), fv ! (k + 2), fv ! (k + 3), fv ! (k + 4)]"
    using assms by simp
next
  fix i assume "i < length (take 5 (drop k fv))"
  then have "i < 5" by simp
  then consider "i = 0" | "i = 1" | "i = 2" | "i = 3" | "i = 4" by linarith
  then show "take 5 (drop k fv) ! i =
             [fv ! k, fv ! (k + 1), fv ! (k + 2), fv ! (k + 3), fv ! (k + 4)] ! i"
    using assms by cases simp_all
qed

lemma flatten_sections_take:
  "5 * n \<le> length fv \<Longrightarrow>
   concat (map (\<lambda>s. [b0 s, b1 s, b2 s, a1 s, a2 s]) (map (section_at fv) [0..<n])) =
     take (5 * n) fv"
proof (induction n)
  case 0
  then show ?case by simp
next
  case (Suc n)
  then have le: "5 * n + 5 \<le> length fv" by simp
  have "5 * Suc n = 5 * n + 5" by simp
  then have "take (5 * Suc n) fv = take (5 * n) fv @ take 5 (drop (5 * n) fv)"
    by (simp only: take_add)
  also have "take 5 (drop (5 * n) fv) =
      [fv ! (5 * n), fv ! (5 * n + 1), fv ! (5 * n + 2), fv ! (5 * n + 3), fv ! (5 * n + 4)]"
    using le by (rule take_5_drop)
  finally show ?case using Suc by (simp add: section_at_def)
qed

lemma decode_flatten:
  assumes "decode fv n = Inr c" shows "flatten c = fv"
proof -
  from decode_Inr[OF assms] have len: "length fv = n * 5"
    and s: "sections c = map (section_at fv) [0..<n]" by simp_all
  from len have "5 * n \<le> length fv" by simp
  from flatten_sections_take[OF this] s len show ?thesis by (simp add: flatten_def mult.commute)
qed

lemma decode_MalformedLayout_iff:
  "decode fv n = Inl MalformedLayout \<longleftrightarrow> length fv \<noteq> n * 5"
proof
  assume m: "decode fv n = Inl MalformedLayout"
  show "length fv \<noteq> n * 5"
  proof
    assume len: "length fv = n * 5"
    with m obtain e where "decode_sections fv [0..<n] = Inl e" "e = MalformedLayout"
      by (auto simp: decode_def split: sum.splits)
    with decode_sections_Inl[of fv "[0..<n]" e] show False by auto
  qed
next
  assume "length fv \<noteq> n * 5"
  then show "decode fv n = Inl MalformedLayout" by (simp add: decode_def)
qed

text \<open>
  Claim C4. For every \<open>numSections \<ge> 1\<close> and every flat value sequence,
  \<open>decode\<close> fails with \<open>MalformedLayout\<close> exactly when the length of the sequence
  differs from \<open>numSections * 5\<close>, and in that case it returns no cascade at all.
\<close>

theorem decode_malformed_layout:
  assumes "1 \<le> n"
  shows "(decode fv n = Inl MalformedLayout \<longleftrightarrow> length fv \<noteq> n * 5)
         \<and> (length fv \<noteq> n * 5 \<longrightarrow> (\<forall>c. decode fv n \<noteq> Inr c))"
proof -
  have "length fv \<noteq> n * 5 \<longrightarrow> (\<forall>c. decode fv n \<noteq> Inr c)"
    by (simp add: decode_def)
  with decode_MalformedLayout_iff[of fv n] show ?thesis by blast
qed

theorem decode_malformed_layout_witness:
  "decode [1, 2, 1] 1 = Inl MalformedLayout
   \<and> decode [1, 2, 1, 0, 0.5] 1 \<noteq> Inl MalformedLayout
   \<and> decode [1, 2, 1, 0, 0.5, 7] 1 = Inl MalformedLayout"
  using decode_malformed_layout[of 1 "[1, 2, 1]"]
    decode_malformed_layout[of 1 "[1, 2, 1, 0, 0.5]"]
    decode_malformed_layout[of 1 "[1, 2, 1, 0, 0.5, 7]"]
  by simp

text \<open>
  Claim C5. \<open>decode\<close> checks the stability invariant of every section. On a
  well-formed layout in which some section \<open>i\<close> violates \<open>\<bar>a2\<bar> < 1\<close> and
  \<open>\<bar>a1\<bar> < 1 + a2\<close> it fails with \<open>UnstableSection j\<close>, where \<open>j \<le> i\<close> is the first
  violating section; so it does whenever a section has \<open>a2 = 1.5\<close>. Nothing is clamped:
  when \<open>decode\<close> succeeds, the sections of the cascade are the values read from the
  layout, and flattening the cascade gives the layout back.
\<close>

theorem decode_unstable_section:
  "(length fv = n * 5 \<and> i < n \<and> \<not> stability_invariant (section_at fv i) \<longrightarrow>
      (\<exists>j\<le>i. decode fv n = Inl (UnstableSection j)
          \<and> \<not> stability_invariant (section_at fv j)
          \<and> (\<forall>k<j. stability_invariant (section_at fv k))))
   \<and> (length fv = n * 5 \<and> i < n \<and> a2 (section_at fv i) = 1.5 \<longrightarrow>
      (\<exists>j\<le>i. decode fv n = Inl (UnstableSection j)))
   \<and> (decode fv n = Inr c \<longrightarrow>
      sections c = map (section_at fv) [0..<n] \<and> flatten c = fv)"
proof -
  have one: "length fv = n * 5 \<and> i < n \<and> \<not> stability_invariant (section_at fv i) \<longrightarrow>
      (\<exists>j\<le>i. decode fv n = Inl (UnstableSection j)
          \<and> \<not> stability_invariant (section_at fv j)
          \<and> (\<forall>k<j. stability_invariant (section_at fv k)))"
    using decode_not_stable[of fv n i] by blast
  have "a2 (section_at fv i) = 1.5 \<longrightarrow> \<not> stability_invariant (section_at fv i)"
    by (simp add: stability_invariant_def)
  with one have two: "length fv = n * 5 \<and> i < n \<and> a2 (section_at fv i) = 1.5 \<longrightarrow>
      (\<exists>j\<le>i. decode fv n = Inl (UnstableSection j))"
    by blast
  have three: "decode fv n = Inr c \<longrightarrow>
      sections c = map (section_at fv) [0..<n] \<and> flatten c = fv"
    using decode_Inr[of fv n c] decode_flatten[of fv n c] by blast
  from one two three show ?thesis by blast
qed

theorem decode_unstable_section_witness:
  "decode [1, 2, 1, 0, 0.5, 1, 2, 1, 0, 1.5] 2 = Inl (UnstableSection 1)
   \<and> decode [1, 2, 1, 0, 1.5] 1 = Inl (UnstableSection 0)
   \<and> flatten \<lparr> numSections = 1,
               sections = [\<lparr> b0 = 1, b1 = 2, b2 = 1, a1 = 0, a2 = 0.5 \<rparr>] \<rparr> =
       [1, 2, 1, 0, 0.5]"
  using decode_unstable_section[of "[1, 2, 1, 0, 0.5, 1, 2, 1, 0, 1.5]" 2 1
      "\<lparr> numSections = 0, sections = [] \<rparr>"]
    decode_unstable_section[of "[1, 2, 1, 0, 1.5]" 1 0
      "\<lparr> numSections = 0, sections = [] \<rparr>"]
    decode_unstable_section[of "[1, 2, 1, 0, 0.5]" 1 0
      "\<lparr> numSections = 1, sections = [\<lparr> b0 = 1, b1 = 2, b2 = 1, a1 = 0, a2 = 0.5 \<rparr>] \<rparr>"]
  by (simp add: decode_def section_at_def stability_invariant_def upt_0_2 flatten_def)

section \<open>The cascade processor\<close>

lemma df2t_section_length: "length (snd (df2t_section c i p)) = length (snd p)"
  by (cases p) (simp add: df2t_section_def Let_def)

lemma fold_df2t_section_length:
  "length (snd (fold (df2t_section c) idxs p)) = length (snd p)"
  by (induction idxs arbitrary: p) (simp_all add: df2t_section_length)

lemma process_sample_length: "length (snd (process_sample c st x)) = length st"
  by (simp add: process_sample_def fold_df2t_section_length)

lemma process_block_length:
  "length (fst (process_block c st xs)) = length xs
   \<and> length (snd (process_block c st xs)) = length st"
proof (induction xs arbitrary: st)
  case Nil
  then show ?case by simp
next
  case (Cons x xs)
  obtain y st1 where s: "process_sample c st x = (y, st1)" by (cases "process_sample c st x")
  then have "length st1 = length st" using process_sample_length[of c st x] by simp
  with Cons.IH[of st1] s show ?case by (simp add: split_beta)
qed

lemma process_block_append:
  "process_block c st (xs @ ys) =
     (let (o1, st1) = process_block c st xs;
          (o2, st2) = process_block c st1 ys
      in (o1 @ o2, st2))"
  by (induction xs arbitrary: st) (simp_all add: split_beta)

lemma replicate_update_same: "(replicate m v)[j := v] = replicate m v"
  by (induction m arbitrary: j) (simp_all split: nat.split)

lemma df2t_section_zero:
  assumes "2 * i + 1 < m"
  shows "df2t_section c i (0, replicate m 0) = (0, replicate m 0)"
proof -
  from assms have "2 * i < m" by simp
  with assms show ?thesis
    by (simp add: df2t_section_def Let_def replicate_update_same)
qed

lemma fold_df2t_section_zero:
  assumes "\<forall>i\<in>set idxs. 2 * i + 1 < m"
  shows "fold (df2t_section c) idxs (0, replicate m 0) = (0, replicate m 0)"
  using assms
proof (induction idxs)
  case Nil
  then show ?case by simp
next
  case (Cons i rest)
  then have "2 * i + 1 < m" by simp
  from df2t_section_zero[OF this] Cons show ?case by simp
qed

lemma process_sample_zero:
  "process_sample c (replicate (numSections c * 2) 0) 0 = (0, replicate (numSections c * 2) 0)"
proof -
  have "\<forall>i\<in>set [0..<numSections c]. 2 * i + 1 < numSections c * 2" by auto
  from fold_df2t_section_zero[OF this] show ?thesis by (simp add: process_sample_def)
qed

lemma process_block_zero:
  "process_block c (replicate (numSections c * 2) 0) (replicate N 0) =
     (replicate N 0, replicate (numSections c * 2) 0)"
  by (induction N) (simp_all add: process_sample_zero)

lemma process_block_nth:
  assumes "k < length xs"
  shows "process_block c st (take (Suc k) xs) =
           (fst (process_block c st (take k xs)) @
              [fst (process_sample c (snd (process_block c st (take k xs))) (xs ! k))],
            snd (process_sample c (snd (process_block c st (take k xs))) (xs ! k)))"
proof -
  from assms have "take (Suc k) xs = take k xs @ [xs ! k]" by (rule take_Suc_conv_app_nth)
  then show ?thesis by (simp add: process_block_append split_beta)
qed

lemma process_block_take:
  "fst (process_block c st (take k xs)) = take k (fst (process_block c st xs))"
proof -
  have "process_block c st xs = process_block c st (take k xs @ drop k xs)" by simp
  also have "fst \<dots> = fst (process_block c st (take k xs)) @
      fst (process_block c (snd (process_block c st (take k xs))) (drop k xs))"
    by (simp only: process_block_append) (simp add: split_beta)
  finally show ?thesis using process_block_length[of c st "take k xs"]
    by (simp add: min_def)
qed

text \<open>
  Claim C3. For a validated cascade, a state buffer of the right length and an input
  block, \<open>process\<close> starts from the caller's state buffer (on the empty block it
  returns that buffer unchanged), returns an output block of the length of the input,
  and the output sample at every position \<open>k\<close> is the value of \<open>x\<close> after the \<open>k\<close>-th
  input sample has run through the sections \<open>0 .. numSections - 1\<close> in order with the
  update \<open>y = b0*x + state[2i]\<close>, \<open>state[2i] = b1*x - a1*y + state[2i+1]\<close>,
  \<open>state[2i+1] = b2*x - a2*y\<close>, \<open>x = y\<close>, starting from the state that the first
  \<open>k\<close> samples left, which for the first sample is the caller's buffer; the state
  after that sample is the one these updates produce.
\<close>

theorem process_output_sample:
  assumes "valid_cascade c" and "length st = numSections c * 2" and "k < length xs"
  shows "process c st [] = Inr ([], st)
       \<and> (\<exists>out st' outk stk.
           process c st xs = Inr (out, st') \<and> length out = length xs
         \<and> out ! 0 =
             fst (fold (\<lambda>i (x, state).
                     let s = sections c ! i;
                         y = b0 s * x + state ! (2 * i)
                     in (y, state[2 * i := b1 s * x - a1 s * y + state ! (2 * i + 1),
                                  2 * i + 1 := b2 s * x - a2 s * y]))
                   [0..<numSections c] (xs ! 0, st))
         \<and> process c st (take k xs) = Inr (outk, stk) \<and> outk = take k out
         \<and> out ! k =
             fst (fold (\<lambda>i (x, state).
                     let s = sections c ! i;
                         y = b0 s * x + state ! (2 * i)
                     in (y, state[2 * i := b1 s * x - a1 s * y + state ! (2 * i + 1),
                                  2 * i + 1 := b2 s * x - a2 s * y]))
                   [0..<numSections c] (xs ! k, stk))
         \<and> process c st (take (Suc k) xs) =
             Inr (take (Suc k) out,
                  snd (fold (\<lambda>i (x, state).
                     let s = sections c ! i;
                         y = b0 s * x + state ! (2 * i)
                     in (y, state[2 * i := b1 s * x - a1 s * y + state ! (2 * i + 1),
                                  2 * i + 1 := b2 s * x - a2 s * y]))
                   [0..<numSections c] (xs ! k, stk))))"
proof -
  let ?step = "\<lambda>i (x, state).
                     let s = sections c ! i;
                         y = b0 s * x + state ! (2 * i)
                     in (y, state[2 * i := b1 s * x - a1 s * y + state ! (2 * i + 1),
                                  2 * i + 1 := b2 s * x - a2 s * y])"
  have step: "df2t_section c = ?step"
    by (rule ext) (simp add: df2t_section_def Let_def fun_eq_iff)
  define out where "out = fst (process_block c st xs)"
  define st' where "st' = snd (process_block c st xs)"
  define stk where "stk = snd (process_block c st (take k xs))"
  define r where "r = fold ?step [0..<numSections c] (xs ! k, stk)"
  define r0 where "r0 = fold ?step [0..<numSections c] (xs ! 0, st)"
  have r: "r = process_sample c stk (xs ! k)"
    by (simp only: r_def process_sample_def step)
  have r0: "r0 = process_sample c st (xs ! 0)"
    by (simp only: r0_def process_sample_def step)
  have base: "process c st [] = Inr ([], st)"
    using assms(2) by (simp add: process_def)
  have p: "process c st xs = Inr (out, st')"
    using assms(2) by (simp add: process_def out_def st'_def)
  have len: "length out = length xs"
    using process_block_length[of c st xs] by (simp add: out_def)
  from assms(3) obtain x rest where xs: "xs = x # rest" by (cases xs) auto
  have first: "out ! 0 = fst r0"
    by (simp add: out_def r0 xs split_beta)
  have pk: "process c st (take k xs) = Inr (take k out, stk)"
    using assms(2) process_block_take[of c st k xs]
    by (simp add: process_def out_def stk_def prod_eq_iff)
  have blk: "process_block c st (take (Suc k) xs) = (take k out @ [fst r], snd r)"
    using process_block_nth[OF assms(3), of c st] process_block_take[of c st k xs]
    by (simp add: r out_def stk_def)
  have tk: "take (Suc k) out = take k out @ [fst r]"
    using process_block_take[of c st "Suc k" xs] blk by (simp add: out_def)
  moreover from assms(3) len have "take (Suc k) out = take k out @ [out ! k]"
    by (simp add: take_Suc_conv_app_nth)
  ultimately have nth: "out ! k = fst r" by simp
  have pS: "process c st (take (Suc k) xs) = Inr (take (Suc k) out, snd r)"
    using assms(2) blk tk by (simp add: process_def)
  from p len first pk nth pS have
    "\<exists>out st' outk stk.
           process c st xs = Inr (out, st') \<and> length out = length xs
         \<and> out ! 0 = fst r0
         \<and> process c st (take k xs) = Inr (outk, stk) \<and> outk = take k out
         \<and> out ! k = fst (fold ?step [0..<numSections c] (xs ! k, stk))
         \<and> process c st (take (Suc k) xs) =
             Inr (take (Suc k) out, snd (fold ?step [0..<numSections c] (xs ! k, stk)))"
    unfolding r_def by blast
  with base show ?thesis unfolding r0_def by blast
qed

theorem process_output_sample_witness:
  "valid_cascade \<lparr> numSections = 2,
       sections = [\<lparr> b0 = 1, b1 = 2, b2 = 1, a1 = -1, a2 = 0.5 \<rparr>,
                   \<lparr> b0 = 1, b1 = 0, b2 = 0, a1 = 0.5, a2 = 0.25 \<rparr>] \<rparr>
   \<and> process \<lparr> numSections = 2,
       sections = [\<lparr> b0 = 1, b1 = 2, b2 = 1, a1 = -1, a2 = 0.5 \<rparr>,
                   \<lparr> b0 = 1, b1 = 0, b2 = 0, a1 = 0.5, a2 = 0.25 \<rparr>] \<rparr>
       [1, 0, 2, -1] [] = Inr ([], [1, 0, 2, -1])
   \<and> process \<lparr> numSections = 2,
       sections = [\<lparr> b0 = 1, b1 = 2, b2 = 1, a1 = -1, a2 = 0.5 \<rparr>,
                   \<lparr> b0 = 1, b1 = 0, b2 = 0, a1 = 0.5, a2 = 0.25 \<rparr>] \<rparr>
       [1, 0, 2, -1] [1, 0, 0] = Inr ([4, 1, 5 / 2], [2, - 2, - (3 / 2), - (5 / 8)])
   \<and> process \<lparr> numSections = 2,
       sections = [\<lparr> b0 = 1, b1 = 2, b2 = 1, a1 = -1, a2 = 0.5 \<rparr>,
                   \<lparr> b0 = 1, b1 = 0, b2 = 0, a1 = 0.5, a2 = 0.25 \<rparr>] \<rparr>
       [1, 0, 2, -1] [1] = Inr ([4], [4, 0, - 3, - 1])
   \<and> process \<lparr> numSections = 2,
       sections = [\<lparr> b0 = 1, b1 = 2, b2 = 1, a1 = -1, a2 = 0.5 \<rparr>,
                   \<lparr> b0 = 1, b1 = 0, b2 = 0, a1 = 0.5, a2 = 0.25 \<rparr>] \<rparr>
       [1, 0, 2, -1] [1, 0] = Inr ([4, 1], [4, - 2, - (3 / 2), - (1 / 4)])"
  using process_output_sample[of
      "\<lparr> numSections = 2,
         sections = [\<lparr> b0 = 1, b1 = 2, b2 = 1, a1 = -1, a2 = 0.5 \<rparr>,
                     \<lparr> b0 = 1, b1 = 0, b2 = 0, a1 = 0.5, a2 = 0.25 \<rparr>] \<rparr>"
      "[1, 0, 2, -1]" 1 "[1, 0, 0]"]
  by (simp add: valid_cascade_def stability_invariant_def process_def process_sample_def
      df2t_section_def upt_0_2)

text \<open>
  Claim C6. Splitting an input sequence at any point into two consecutive blocks and
  processing them one after the other against the same state buffer gives the
  concatenation of the two outputs and the final state that processing the whole
  sequence as one block gives. The equation holds for every cascade and every state
  buffer (an error of the first block is the error of the whole); for a valid cascade
  and a state buffer of the right length all three calls succeed.
\<close>

theorem process_split_blocks:
  "process c st (xs @ ys) =
     (case process c st xs of
        Inl e \<Rightarrow> Inl e
      | Inr (o1, st1) \<Rightarrow>
          (case process c st1 ys of
             Inl e \<Rightarrow> Inl e
           | Inr (o2, st2) \<Rightarrow> Inr (o1 @ o2, st2)))
   \<and> (valid_cascade c \<and> length st = numSections c * 2 \<longrightarrow>
        (\<exists>o1 st1 o2 st2.
            process c st xs = Inr (o1, st1) \<and> process c st1 ys = Inr (o2, st2)
          \<and> process c st (xs @ ys) = Inr (o1 @ o2, st2)))"
proof -
  obtain o1 st1 where b1: "process_block c st xs = (o1, st1)"
    by (cases "process_block c st xs")
  obtain o2 st2 where b2: "process_block c st1 ys = (o2, st2)"
    by (cases "process_block c st1 ys")
  have l1: "length st1 = length st"
    using process_block_length[of c st xs] b1 by simp
  have app: "process_block c st (xs @ ys) = (o1 @ o2, st2)"
    by (simp add: process_block_append b1 b2)
  have first: "process c st (xs @ ys) =
     (case process c st xs of
        Inl e \<Rightarrow> Inl e
      | Inr (o1, st1) \<Rightarrow>
          (case process c st1 ys of
             Inl e \<Rightarrow> Inl e
           | Inr (o2, st2) \<Rightarrow> Inr (o1 @ o2, st2)))"
    by (simp add: process_def b1 b2 l1 app)
  have second: "valid_cascade c \<and> length st = numSections c * 2 \<longrightarrow>
        (\<exists>o1 st1 o2 st2.
            process c st xs = Inr (o1, st1) \<and> process c st1 ys = Inr (o2, st2)
          \<and> process c st (xs @ ys) = Inr (o1 @ o2, st2))"
    by (auto simp: process_def b1 b2 l1 app)
  from first second show ?thesis by blast
qed

theorem process_split_blocks_witness:
  "process \<lparr> numSections = 2,
       sections = [\<lparr> b0 = 1, b1 = 2, b2 = 1, a1 = -1, a2 = 0.5 \<rparr>,
                   \<lparr> b0 = 1, b1 = 0, b2 = 0, a1 = 0.5, a2 = 0.25 \<rparr>] \<rparr>
       [0, 0, 0, 0] ([1] @ [0, 0]) = Inr ([1] @ [5 / 2, 2], [2, - (7 / 4), - (13 / 8), - (1 / 2)])
   \<and> process \<lparr> numSections = 2,
       sections = [\<lparr> b0 = 1, b1 = 2, b2 = 1, a1 = -1, a2 = 0.5 \<rparr>,
                   \<lparr> b0 = 1, b1 = 0, b2 = 0, a1 = 0.5, a2 = 0.25 \<rparr>] \<rparr>
       [0, 0, 0, 0] [1] = Inr ([1], [3, 1 / 2, - (1 / 2), - (1 / 4)])
   \<and> process \<lparr> numSections = 2,
       sections = [\<lparr> b0 = 1, b1 = 2, b2 = 1, a1 = -1, a2 = 0.5 \<rparr>,
                   \<lparr> b0 = 1, b1 = 0, b2 = 0, a1 = 0.5, a2 = 0.25 \<rparr>] \<rparr>
       [3, 1 / 2, - (1 / 2), - (1 / 4)] [0, 0] =
         Inr ([5 / 2, 2], [2, - (7 / 4), - (13 / 8), - (1 / 2)])"
  using process_split_blocks[of
      "\<lparr> numSections = 2,
         sections = [\<lparr> b0 = 1, b1 = 2, b2 = 1, a1 = -1, a2 = 0.5 \<rparr>,
                     \<lparr> b0 = 1, b1 = 0, b2 = 0, a1 = 0.5, a2 = 0.25 \<rparr>] \<rparr>"
      "[0, 0, 0, 0]" "[1]" "[0, 0]"]
  by (simp add: valid_cascade_def stability_invariant_def process_def process_sample_def
      df2t_section_def upt_0_2)

text \<open>
  Claim C7. For every valid cascade and every block length \<open>N\<close>, an all-zero input
  block of length \<open>N\<close> processed from an all-zero state buffer gives an all-zero
  output block of length \<open>N\<close> and leaves the state buffer all zero.
\<close>

theorem process_zero_input:
  assumes "valid_cascade c"
  shows "process c (replicate (numSections c * 2) 0) (replicate N 0) =
           Inr (replicate N 0, replicate (numSections c * 2) 0)"
  by (simp add: process_def process_block_zero)

theorem process_zero_input_witness:
  "valid_cascade \<lparr> numSections = 2,
       sections = [\<lparr> b0 = 1, b1 = 2, b2 = 1, a1 = -1, a2 = 0.5 \<rparr>,
                   \<lparr> b0 = 1, b1 = 0, b2 = 0, a1 = 0.5, a2 = 0.25 \<rparr>] \<rparr>
   \<and> process \<lparr> numSections = 2,
       sections = [\<lparr> b0 = 1, b1 = 2, b2 = 1, a1 = -1, a2 = 0.5 \<rparr>,
                   \<lparr> b0 = 1, b1 = 0, b2 = 0, a1 = 0.5, a2 = 0.25 \<rparr>] \<rparr>
       [0, 0, 0, 0] [0, 0, 0] = Inr ([0, 0, 0], [0, 0, 0, 0])"
proof -
  have v: "valid_cascade \<lparr> numSections = 2,
       sections = [\<lparr> b0 = 1, b1 = 2, b2 = 1, a1 = -1, a2 = 0.5 \<rparr>,
                   \<lparr> b0 = 1, b1 = 0, b2 = 0, a1 = 0.5, a2 = 0.25 \<rparr>] \<rparr>"
    by (simp add: valid_cascade_def stability_invariant_def)
  have r4: "replicate (2 * 2) (0::real) = [0, 0, 0, 0]"
    by (simp add: numeral_eq_Suc)
  have r3: "replicate 3 (0::real) = [0, 0, 0]"
    by (simp add: numeral_eq_Suc)
  from process_zero_input[OF v, of 3] v r4 r3 show ?thesis by simp
qed

section \<open>Header metadata\<close>

text \<open>
  Claim C8. In both shipped headers \<open>IIR_STATE_SIZE = 2 * IIR_NUM_SECTIONS\<close>. The
  template does not compute the state size: it copies the placeholder \<open>num_sections\<close>
  into \<open>IIR_FILTER_SECTIONS\<close> and the placeholder \<open>state_size\<close> into
  \<open>IIR_FILTER_STATE_SIZE\<close>, so a rendered header has its state-size constant equal to
  twice its section-count constant exactly when the context it is rendered from has.
  A context with three sections and a state size of four renders a header in which
  the two constants are not in that relation.
\<close>

theorem header_state_size_as_rendered:
  "filterdata_IIR_STATE_SIZE = 2 * filterdata_IIR_NUM_SECTIONS
   \<and> iir_filter_coeffs_IIR_STATE_SIZE = 2 * iir_filter_coeffs_IIR_NUM_SECTIONS
   \<and> IIR_FILTER_SECTIONS (cmsis_header_template ctx) = num_sections ctx
   \<and> IIR_FILTER_STATE_SIZE (cmsis_header_template ctx) = state_size ctx
   \<and> (IIR_FILTER_STATE_SIZE (cmsis_header_template ctx) =
        2 * IIR_FILTER_SECTIONS (cmsis_header_template ctx)
      \<longleftrightarrow> state_size ctx = 2 * num_sections ctx)"
  by (simp add: filterdata_IIR_STATE_SIZE_def filterdata_IIR_NUM_SECTIONS_def
      iir_filter_coeffs_IIR_STATE_SIZE_def iir_filter_coeffs_IIR_NUM_SECTIONS_def
      cmsis_header_template_def)

theorem template_state_size_counterexample:
  "IIR_FILTER_STATE_SIZE (cmsis_header_template
      \<lparr> num_sections = 3, state_size = 4, form_type = ''DF2T'', data_type = ''float32_t'',
        sample_rate = ''48000'', filter_type = ''butter'', band_type = ''lowpass'',
        filter_order = ''6'', cutoff_freq = ''1000'', coeffs_per_section = 5,
        coefficients_array = [] \<rparr>)
   \<noteq> 2 * IIR_FILTER_SECTIONS (cmsis_header_template
      \<lparr> num_sections = 3, state_size = 4, form_type = ''DF2T'', data_type = ''float32_t'',
        sample_rate = ''48000'', filter_type = ''butter'', band_type = ''lowpass'',
        filter_order = ''6'', cutoff_freq = ''1000'', coeffs_per_section = 5,
        coefficients_array = [] \<rparr>)"
  by (simp add: cmsis_header_template_def)

end
